theory Spec2Isabelle
  imports Complex_Main
begin

section \<open>Deepfake Audio Detector: the FastAPI server of app.py\<close>

text \<open>
  The server of \<^verbatim>\<open>app.py\<close> loads a Keras classifier once, turns every uploaded audio
  file into a 128 by 128 normalised mel-spectrogram and thresholds the classifier's output.
  The calls into librosa and Keras are parameters of the embedding; the NumPy and Python
  operations the file applies to their results (\<^verbatim>\<open>np.resize\<close>, \<^verbatim>\<open>min\<close>, \<^verbatim>\<open>max\<close>, the
  broadcast arithmetic, \<^verbatim>\<open>round\<close>) are written out.
\<close>

subsection \<open>Floating-point values\<close>

text \<open>
  A NumPy float is a finite number, an infinity or NaN. The arrays of librosa and the
  output of the model are \<^verbatim>\<open>float32\<close>, and NumPy computes on them in \<^verbatim>\<open>float32\<close>: every sum,
  difference, product and quotient is the exact result rounded to the nearest \<^verbatim>\<open>float32\<close>,
  a tie to the even significand, and a result beyond the largest \<^verbatim>\<open>float32\<close> is an infinity.
  Zero carries no sign (it divides like \<^verbatim>\<open>+0.0\<close>). The special values follow IEEE 754, which
  NumPy follows with a warning in place of an exception: \<^verbatim>\<open>0/0\<close>, \<^verbatim>\<open>inf - inf\<close> and
  \<^verbatim>\<open>0 * inf\<close> are NaN, NaN propagates, and every comparison with NaN is false.
\<close>

datatype npfloat = Finite real | PosInf | NegInf | NaN

text \<open>Rounding a real to an integer, a tie to the even one.\<close>

definition round_half_even :: "real \<Rightarrow> int" where
  "round_half_even x =
     (let f = \<lfloor>x\<rfloor>; d = x - of_int f
      in if d < 1 / 2 then f else if 1 / 2 < d then f + 1 else if even f then f else f + 1)"

text \<open>
  The binary exponent of a \<^verbatim>\<open>float32\<close> near \<open>x\<close>: the \<open>e\<close> between -126 and 127 with
  \<open>2\<^sup>e \<le> x < 2\<^sup>e\<^sup>+\<^sup>1\<close>, -126 for the subnormal range below and 127 for everything above.
  The search starts at -126 and climbs at most 253 steps.
\<close>

fun exponent_from :: "nat \<Rightarrow> int \<Rightarrow> real \<Rightarrow> int" where
  "exponent_from 0 e x = e"
| "exponent_from (Suc n) e x = (if 2 powi (e + 1) \<le> x then exponent_from n (e + 1) x else e)"

definition f32_exponent :: "real \<Rightarrow> int" where
  "f32_exponent x = exponent_from 253 (- 126) \<bar>x\<bar>"

text \<open>
  Rounding a real to \<^verbatim>\<open>float32\<close>: with 24 bits of significand the values near \<open>x\<close> are the
  multiples of \<open>2\<^sup>e\<^sup>-\<^sup>2\<^sup>3\<close>, and \<open>x\<close> goes to the nearest one, a tie to the even multiple.
  When that is \<open>2\<^sup>1\<^sup>2\<^sup>8\<close> or beyond, the result is an infinity.
\<close>

definition f32_nearest :: "real \<Rightarrow> real" where
  "f32_nearest x =
     (let ulp = 2 powi (f32_exponent x - 23) in of_int (round_half_even (x / ulp)) * ulp)"

definition f32_round :: "real \<Rightarrow> npfloat" where
  "f32_round x =
     (let r = f32_nearest x
      in if 2 powi 128 \<le> r then PosInf else if r \<le> - (2 powi 128) then NegInf else Finite r)"

text \<open>A real is a \<^verbatim>\<open>float32\<close> value when rounding leaves it as it is.\<close>

definition is_f32 :: "real \<Rightarrow> bool" where
  "is_f32 x = (f32_round x = Finite x)"

fun fl_neg :: "npfloat \<Rightarrow> npfloat" where
  "fl_neg (Finite a) = Finite (- a)"
| "fl_neg PosInf = NegInf"
| "fl_neg NegInf = PosInf"
| "fl_neg NaN = NaN"

fun fl_add :: "npfloat \<Rightarrow> npfloat \<Rightarrow> npfloat" where
  "fl_add (Finite a) (Finite b) = f32_round (a + b)"
| "fl_add NaN _ = NaN"
| "fl_add _ NaN = NaN"
| "fl_add PosInf NegInf = NaN"
| "fl_add NegInf PosInf = NaN"
| "fl_add PosInf _ = PosInf"
| "fl_add NegInf _ = NegInf"
| "fl_add (Finite a) PosInf = PosInf"
| "fl_add (Finite a) NegInf = NegInf"

definition fl_sub :: "npfloat \<Rightarrow> npfloat \<Rightarrow> npfloat" where
  "fl_sub a b = fl_add a (fl_neg b)"

text \<open>The infinity of the sign of a non-zero finite factor; NaN for the factor zero.\<close>

definition signed_inf :: "real \<Rightarrow> npfloat" where
  "signed_inf a = (if a = 0 then NaN else if 0 < a then PosInf else NegInf)"

fun fl_mul :: "npfloat \<Rightarrow> npfloat \<Rightarrow> npfloat" where
  "fl_mul (Finite a) (Finite b) = f32_round (a * b)"
| "fl_mul NaN _ = NaN"
| "fl_mul _ NaN = NaN"
| "fl_mul PosInf PosInf = PosInf"
| "fl_mul PosInf NegInf = NegInf"
| "fl_mul NegInf PosInf = NegInf"
| "fl_mul NegInf NegInf = PosInf"
| "fl_mul PosInf (Finite b) = signed_inf b"
| "fl_mul NegInf (Finite b) = signed_inf (- b)"
| "fl_mul (Finite a) PosInf = signed_inf a"
| "fl_mul (Finite a) NegInf = signed_inf (- a)"

fun fl_div :: "npfloat \<Rightarrow> npfloat \<Rightarrow> npfloat" where
  "fl_div (Finite a) (Finite b) = (if b = 0 then signed_inf a else f32_round (a / b))"
| "fl_div NaN _ = NaN"
| "fl_div _ NaN = NaN"
| "fl_div PosInf (Finite b) = (if 0 \<le> b then PosInf else NegInf)"
| "fl_div NegInf (Finite b) = (if 0 \<le> b then NegInf else PosInf)"
| "fl_div (Finite a) PosInf = Finite 0"
| "fl_div (Finite a) NegInf = Finite 0"
| "fl_div PosInf PosInf = NaN"
| "fl_div PosInf NegInf = NaN"
| "fl_div NegInf PosInf = NaN"
| "fl_div NegInf NegInf = NaN"

fun fl_less :: "npfloat \<Rightarrow> npfloat \<Rightarrow> bool" where
  "fl_less (Finite a) (Finite b) = (a < b)"
| "fl_less NaN _ = False"
| "fl_less _ NaN = False"
| "fl_less NegInf NegInf = False"
| "fl_less NegInf _ = True"
| "fl_less PosInf _ = False"
| "fl_less (Finite a) PosInf = True"
| "fl_less (Finite a) NegInf = False"

fun fl_abs :: "npfloat \<Rightarrow> npfloat" where
  "fl_abs (Finite a) = Finite \<bar>a\<bar>"
| "fl_abs PosInf = PosInf"
| "fl_abs NegInf = PosInf"
| "fl_abs NaN = NaN"

text \<open>\<^verbatim>\<open>np.minimum\<close> and \<^verbatim>\<open>np.maximum\<close> of two values: NaN wins over every number.\<close>

definition fl_min :: "npfloat \<Rightarrow> npfloat \<Rightarrow> npfloat" where
  "fl_min a b = (if a = NaN \<or> b = NaN then NaN else if fl_less b a then b else a)"

definition fl_max :: "npfloat \<Rightarrow> npfloat \<Rightarrow> npfloat" where
  "fl_max a b = (if a = NaN \<or> b = NaN then NaN else if fl_less a b then b else a)"

text \<open>
  Python's \<^verbatim>\<open>round(x, ndigits)\<close> on a float: NaN and the infinities round to themselves;
  a finite value goes to the nearest multiple of \<open>10\<^sup>-\<^sup>n\<close>, a tie to the even one. The
  result stands for the double that prints as that decimal.
\<close>

fun py_round :: "npfloat \<Rightarrow> nat \<Rightarrow> npfloat" where
  "py_round (Finite x) ndigits = Finite (of_int (round_half_even (x * 10 ^ ndigits)) / 10 ^ ndigits)"
| "py_round PosInf ndigits = PosInf"
| "py_round NegInf ndigits = NegInf"
| "py_round NaN ndigits = NaN"

subsection \<open>Responses\<close>

text \<open>
  A JSON body is a Python dict with string keys, kept in insertion order. A handler
  either builds a \<^verbatim>\<open>JSONResponse\<close> with a status code, or returns a plain dict, which
  FastAPI sends with status 200. Python strings are written as their UTF-8 bytes.
\<close>

datatype json = JStr string | JNum npfloat

type_synonym content = "(string \<times> json) list"

datatype response = JSONResponse nat content | Returned content

subsection \<open>Interpreting the model output (lines 96 to 107)\<close>

text \<open>
  \<^verbatim>\<open>if pred < 0.5: label = "HUMAN"; confidence = (1 - pred) * 100\<close>
  \<^verbatim>\<open>else: label = "AI-GENERATED"; confidence = pred * 100\<close>
  \<^verbatim>\<open>pred\<close> is a \<^verbatim>\<open>float32\<close> scalar, so the difference and the products are \<^verbatim>\<open>float32\<close>
  operations, each rounded.
\<close>

definition interpret_result :: "npfloat \<Rightarrow> string \<times> npfloat" where
  "interpret_result pred =
     (if fl_less pred (Finite (1 / 2))
      then (''HUMAN'', fl_mul (fl_sub (Finite 1) pred) (Finite 100))
      else (''AI-GENERATED'', fl_mul pred (Finite 100)))"

text \<open>
  \<^verbatim>\<open>return {"prediction": label, "confidence": round(float(confidence), 2)}\<close>
  (\<^verbatim>\<open>float\<close> widens the \<^verbatim>\<open>float32\<close> to a double and leaves its value unchanged).
\<close>

definition result_dict :: "npfloat \<Rightarrow> content" where
  "result_dict pred =
     (let (label, confidence) = interpret_result pred
      in [(''prediction'', JStr label), (''confidence'', JNum (py_round confidence 2))])"

subsection \<open>Arrays\<close>

text \<open>
  A two-dimensional \<^verbatim>\<open>ndarray\<close> is the list of its rows; the array handed to the model
  has four axes. \<^verbatim>\<open>bytes\<close> are a list of 8-bit characters, and an exception is the text
  \<^verbatim>\<open>str(e)\<close> gives for it.
\<close>

type_synonym ndarray = "npfloat list list"

type_synonym tensor4 = "npfloat list list list list"

type_synonym bytes = string

type_synonym exn = string

text \<open>\<^verbatim>\<open>np.reshape\<close> of a flat array of \<open>r * c\<close> elements to \<open>r\<close> rows of \<open>c\<close>.\<close>

fun reshape2 :: "nat \<Rightarrow> nat \<Rightarrow> 'a list \<Rightarrow> 'a list list" where
  "reshape2 0 c xs = []"
| "reshape2 (Suc r) c xs = take c xs # reshape2 r c (drop c xs)"

text \<open>
  \<^verbatim>\<open>np.resize(a, new_shape)\<close>: the array is flattened and repeated as often as it takes
  to fill the new shape, then cut to size; an empty array gives zeros.
  \<^verbatim>\<open>repeats = -(-new_size // a.size)\<close> is the division rounded up.
\<close>

definition np_resize :: "ndarray \<Rightarrow> nat \<times> nat \<Rightarrow> ndarray" where
  "np_resize a new_shape =
     (let (r, c) = new_shape; flat = concat a; new_size = r * c
      in if flat = [] \<or> new_size = 0 then replicate r (replicate c (Finite 0))
         else let repeats = (new_size + length flat - 1) div length flat
              in reshape2 r c (take new_size (concat (replicate repeats flat))))"

text \<open>
  \<^verbatim>\<open>a.min()\<close> and \<^verbatim>\<open>a.max()\<close> over all entries; NumPy raises a ValueError on an array
  without entries.
\<close>

definition np_min :: "ndarray \<Rightarrow> exn + npfloat" where
  "np_min a =
     (case concat a of
        [] \<Rightarrow> Inl ''zero-size array to reduction operation minimum which has no identity''
      | x # xs \<Rightarrow> Inr (fold fl_min xs x))"

definition np_max :: "ndarray \<Rightarrow> exn + npfloat" where
  "np_max a =
     (case concat a of
        [] \<Rightarrow> Inl ''zero-size array to reduction operation maximum which has no identity''
      | x # xs \<Rightarrow> Inr (fold fl_max xs x))"

subsection \<open>The feature extractor (lines 53 to 70)\<close>

text \<open>
  The three librosa calls of \<^verbatim>\<open>audio_to_spectrogram\<close>, each of which may raise:
  \<^verbatim>\<open>librosa.load(io.BytesIO(file_bytes), sr=None)\<close> gives the waveform and its sample
  rate, \<^verbatim>\<open>librosa.feature.melspectrogram(y=y, sr=sr, n_mels=n)\<close> the mel power
  spectrogram, and \<^verbatim>\<open>librosa.power_to_db(S, ref=np.max)\<close> its decibel scale.
\<close>

record librosa =
  load :: "bytes \<Rightarrow> exn + npfloat list \<times> nat"
  melspectrogram :: "npfloat list \<Rightarrow> nat \<Rightarrow> nat \<Rightarrow> exn + ndarray"
  power_to_db :: "ndarray \<Rightarrow> exn + ndarray"

text \<open>
  Every exception inside the function is caught and turned into \<^verbatim>\<open>None\<close>. The division
  of line 66 is NumPy's: a zero denominator gives NaN or an infinity, not an exception.
\<close>

definition audio_to_spectrogram :: "librosa \<Rightarrow> bytes \<Rightarrow> ndarray option" where
  "audio_to_spectrogram L file_bytes =
     (case load L file_bytes of
        Inl e \<Rightarrow> None
      | Inr (y, sr) \<Rightarrow>
          (case melspectrogram L y sr 128 of
             Inl e \<Rightarrow> None
           | Inr S \<Rightarrow>
               (case power_to_db L S of
                  Inl e \<Rightarrow> None
                | Inr S_DB \<Rightarrow>
                    (let S_DB = np_resize S_DB (128, 128)
                     in case np_min S_DB of
                          Inl e \<Rightarrow> None
                        | Inr lo \<Rightarrow>
                            (case np_max S_DB of
                               Inl e \<Rightarrow> None
                             | Inr hi \<Rightarrow>
                                 Some (map (map (\<lambda>x. fl_div (fl_sub x lo) (fl_sub hi lo))) S_DB))))))"

subsection \<open>The model and the prediction route (lines 42 to 47 and 76 to 111)\<close>

text \<open>
  A loaded Keras model is its \<^verbatim>\<open>predict\<close>: from the input batch to the batch of output
  rows, or an exception. \<^verbatim>\<open>model\<close> is the module's global: the model that
  \<^verbatim>\<open>load_model("Promodel.keras")\<close> gave at startup, or \<^verbatim>\<open>None\<close> when it raised.
\<close>

type_synonym keras_model = "tensor4 \<Rightarrow> exn + npfloat list list"

definition model :: "exn + keras_model \<Rightarrow> keras_model option" where
  "model load_model_result = (case load_model_result of Inr m \<Rightarrow> Some m | Inl e \<Rightarrow> None)"

text \<open>
  The uploaded file: its name and content type, which the handler never reads, and what
  \<^verbatim>\<open>await file.read()\<close> gives, the bytes or an exception.
\<close>

record upload_file =
  filename :: string
  content_type :: string
  read :: "exn + bytes"

text \<open>\<^verbatim>\<open>spectrogram[np.newaxis, ..., np.newaxis]\<close>: one batch of the rows, every entry a channel.\<close>

definition add_axes :: "ndarray \<Rightarrow> tensor4" where
  "add_axes spectrogram = [map (map (\<lambda>x. [x])) spectrogram]"

text \<open>\<^verbatim>\<open>out[0][0]\<close> on the batch of output rows; an index out of range raises IndexError.\<close>

definition index_0_0 :: "npfloat list list \<Rightarrow> exn + npfloat" where
  "index_0_0 out =
     (case out of
        [] \<Rightarrow> Inl ''index 0 is out of bounds for axis 0 with size 0''
      | row # _ \<Rightarrow>
          (case row of
             [] \<Rightarrow> Inl ''index 0 is out of bounds for axis 0 with size 0''
           | pred # _ \<Rightarrow> Inr pred))"

text \<open>
  What a request did outside the handler: the calls of the feature extractor and of the
  model's forward pass, in order, each with its argument.
\<close>

datatype call = Feature_extraction bytes | Forward_pass tensor4

definition predict_audio :: "librosa \<Rightarrow> keras_model option \<Rightarrow> upload_file \<Rightarrow> response \<times> call list" where
  "predict_audio L mdl file =
     (case mdl of
        None \<Rightarrow> (JSONResponse 500 [(''error'', JStr ''Model not loaded on server.'')], [])
      | Some m \<Rightarrow>
          (case read file of
             Inl e \<Rightarrow> (JSONResponse 500 [(''error'', JStr e)], [])
           | Inr file_bytes \<Rightarrow>
               (case audio_to_spectrogram L file_bytes of
                  None \<Rightarrow>
                    (JSONResponse 400 [(''error'', JStr ''Could not process audio file.'')],
                     [Feature_extraction file_bytes])
                | Some spectrogram \<Rightarrow>
                    (let spectrogram = add_axes spectrogram;
                         calls = [Feature_extraction file_bytes, Forward_pass spectrogram]
                     in case m spectrogram of
                          Inl e \<Rightarrow> (JSONResponse 500 [(''error'', JStr e)], calls)
                        | Inr out \<Rightarrow>
                            (case index_0_0 out of
                               Inl e \<Rightarrow> (JSONResponse 500 [(''error'', JStr e)], calls)
                             | Inr pred \<Rightarrow> (Returned (result_dict pred), calls))))))"

subsection \<open>The root route and the application (lines 117 to 119)\<close>

text \<open>
  \<^verbatim>\<open>root\<close> of the source (the name is taken by the n-th root of the reals). The message
  starts with the headphone emoji, U+1F3A7, four bytes in UTF-8.
\<close>

definition root_route :: response where
  "root_route =
     Returned [(''message'',
       JStr ([CHR 0xF0, CHR 0x9F, CHR 0x8E, CHR 0xA7] @ '' Deepfake Audio Detector API is running!''))]"

text \<open>
  The two routes the module registers on \<^verbatim>\<open>app\<close>: \<^verbatim>\<open>GET /\<close> and \<^verbatim>\<open>POST /predict/\<close> with
  the uploaded file.
\<close>

datatype request = GET_root | POST_predict upload_file

definition app :: "librosa \<Rightarrow> keras_model option \<Rightarrow> request \<Rightarrow> response \<times> call list" where
  "app L mdl req = (case req of GET_root \<Rightarrow> (root_route, []) | POST_predict file \<Rightarrow> predict_audio L mdl file)"

subsection \<open>The glossary's confidence\<close>

text \<open>
  The specification's glossary reads the confidence as the distance of the model output
  from the threshold 0.5, as a percentage. This definition follows those words, not the
  code; the code's confidence is compared with it below.
\<close>

definition distance_percentage :: "npfloat \<Rightarrow> npfloat" where
  "distance_percentage pred = fl_mul (fl_abs (fl_sub pred (Finite (1 / 2)))) (Finite 100)"

subsection \<open>Shapes and ranges\<close>

text \<open>
  \<^verbatim>\<open>a.shape == (r, c)\<close> for an array given by its rows, the same for four axes, and the
  closed unit interval, which holds no infinity and no NaN.
\<close>

definition has_shape2 :: "'a list list \<Rightarrow> nat \<times> nat \<Rightarrow> bool" where
  "has_shape2 a s = (case s of (r, c) \<Rightarrow> length a = r \<and> list_all (\<lambda>row. length row = c) a)"

definition has_shape4 :: "'a list list list list \<Rightarrow> nat \<times> nat \<times> nat \<times> nat \<Rightarrow> bool" where
  "has_shape4 t s =
     (case s of (n, r, c, k) \<Rightarrow>
        length t = n \<and> list_all (\<lambda>a. length a = r \<and> list_all (\<lambda>row. has_shape2 row (c, k)) a) t)"

definition in_unit_interval :: "npfloat \<Rightarrow> bool" where
  "in_unit_interval x = (case x of Finite v \<Rightarrow> 0 \<le> v \<and> v \<le> 1 | _ \<Rightarrow> False)"

subsection \<open>Concrete inputs\<close>

text \<open>
  What librosa gives for a short clip whose mel power spectrogram has two frames, power 1
  and power 0 in each of the bands: \<^verbatim>\<open>power_to_db\<close> with \<^verbatim>\<open>ref=np.max\<close> puts the first
  frame at 0 dB and clips the second at -80 dB.
\<close>

definition two_frame_librosa :: librosa where
  "two_frame_librosa =
     \<lparr>load = (\<lambda>file_bytes. Inr ([Finite (1 / 2), Finite (- 1 / 2)], 22050)),
      melspectrogram = (\<lambda>y sr n_mels. Inr (replicate n_mels [Finite 1, Finite 0])),
      power_to_db = (\<lambda>S. Inr (replicate 128 [Finite 0, Finite (- 80)]))\<rparr>"

text \<open>The normalised spectrogram of that clip: every row alternates 1 and 0.\<close>

definition two_frame_normalised :: ndarray where
  "two_frame_normalised = replicate 128 (concat (replicate 64 [Finite 1, Finite 0]))"

text \<open>
  What librosa gives for digital silence (every sample zero): the power spectrogram is
  zero, and \<^verbatim>\<open>power_to_db\<close> with \<^verbatim>\<open>ref=np.max\<close> puts every entry at 0 dB, since both the
  entry and the reference are raised to \<^verbatim>\<open>amin\<close>.
\<close>

definition silent_librosa :: librosa where
  "silent_librosa =
     \<lparr>load = (\<lambda>file_bytes. Inr (replicate 4 (Finite 0), 22050)),
      melspectrogram = (\<lambda>y sr n_mels. Inr (replicate n_mels [Finite 0])),
      power_to_db = (\<lambda>S. Inr (replicate 128 [Finite 0]))\<rparr>"

text \<open>A librosa that cannot decode the upload.\<close>

definition failing_librosa :: librosa where
  "failing_librosa =
     \<lparr>load = (\<lambda>file_bytes. Inl ''Format not recognised.''),
      melspectrogram = (\<lambda>y sr n_mels. Inr (replicate n_mels [Finite 1, Finite 0])),
      power_to_db = (\<lambda>S. Inr (replicate 128 [Finite 0, Finite (- 80)]))\<rparr>"

text \<open>
  A model whose output is 0.25 on every input, one whose output is 0.5, and two uploads of
  the same bytes.
\<close>

definition quarter_model :: keras_model where
  "quarter_model = (\<lambda>batch. Inr [[Finite (1 / 4)]])"

text \<open>
  The environment of a second request: a librosa that gives the same for the bytes
  \<^verbatim>\<open>RIFF\<close> and fails on all others, and a forward pass that gives 0.25 on the normalised
  clip of two frames and 0.75 on every other batch.
\<close>

definition riff_only_librosa :: librosa where
  "riff_only_librosa =
     \<lparr>load = (\<lambda>file_bytes. if file_bytes = ''RIFF'' then Inr ([Finite (1 / 2), Finite (- 1 / 2)], 22050)
                             else Inl ''Format not recognised.''),
      melspectrogram = (\<lambda>y sr n_mels. Inr (replicate n_mels [Finite 1, Finite 0])),
      power_to_db = (\<lambda>S. Inr (replicate 128 [Finite 0, Finite (- 80)]))\<rparr>"

definition quarter_on_clip_model :: keras_model where
  "quarter_on_clip_model =
     (\<lambda>batch. if batch = [map (map (\<lambda>x. [x])) two_frame_normalised]
              then Inr [[Finite (1 / 4)]] else Inr [[Finite (3 / 4)]])"

text \<open>A model whose output is the \<^verbatim>\<open>float32\<close> value \<open>6879917 / 2\<^sup>2\<^sup>3\<close>, about 0.82015.\<close>

definition model_at_82 :: keras_model where
  "model_at_82 = (\<lambda>batch. Inr [[Finite (6879917 / 8388608)]])"

definition half_model :: keras_model where
  "half_model = (\<lambda>batch. Inr [[Finite (1 / 2)]])"

definition voice_wav :: upload_file where
  "voice_wav = \<lparr>filename = ''voice.wav'', content_type = ''audio/wav'', read = Inr ''RIFF''\<rparr>"

definition copy_bin :: upload_file where
  "copy_bin = \<lparr>filename = ''copy.bin'', content_type = ''application/octet-stream'', read = Inr ''RIFF''\<rparr>"

section \<open>Properties\<close>

subsection \<open>Rounding to the nearest float32\<close>

lemma round_half_even_near:
  "x - 1 / 2 \<le> of_int (round_half_even x)" "of_int (round_half_even x) \<le> x + 1 / 2"
  unfolding round_half_even_def Let_def by (auto; linarith)+

lemma round_half_even_of_int: "round_half_even (of_int n) = n"
  by (simp add: round_half_even_def)

lemma round_half_even_mono:
  assumes "x \<le> y"
  shows "round_half_even x \<le> round_half_even y"
proof (rule ccontr)
  assume "\<not> round_half_even x \<le> round_half_even y"
  then have "round_half_even y + 1 \<le> round_half_even x" by simp
  then have *: "real_of_int (round_half_even y) + 1 \<le> real_of_int (round_half_even x)"
    by (metis of_int_1 of_int_add of_int_le_iff)
  have "x = y"
    using * round_half_even_near(2) [of x] round_half_even_near(1) [of y] assms by linarith
  with \<open>\<not> round_half_even x \<le> round_half_even y\<close> show False by simp
qed

lemma round_half_even_ge: "of_int a \<le> x \<Longrightarrow> a \<le> round_half_even x"
  using round_half_even_mono [of "of_int a" x] by (simp add: round_half_even_of_int)

lemma round_half_even_le: "x \<le> of_int b \<Longrightarrow> round_half_even x \<le> b"
  using round_half_even_mono [of x "of_int b"] by (simp add: round_half_even_of_int)

lemma exponent_from_spec:
  "e \<le> exponent_from n e x \<and> exponent_from n e x \<le> e + int n \<and>
   (e < exponent_from n e x \<longrightarrow> 2 powi (exponent_from n e x) \<le> x) \<and>
   (exponent_from n e x < e + int n \<longrightarrow> x < 2 powi (exponent_from n e x + 1))"
proof (induction n arbitrary: e)
  case 0
  then show ?case by simp
next
  case (Suc n)
  show ?case
  proof (cases "2 powi (e + 1) \<le> x")
    case True
    with Suc [of "e + 1"] show ?thesis
      by (cases "exponent_from n (e + 1) x = e + 1") auto
  next
    case False
    then show ?thesis by simp
  qed
qed

lemma exponent_from_mono: "x \<le> y \<Longrightarrow> exponent_from n e x \<le> exponent_from n e y"
proof (induction n arbitrary: e)
  case 0
  then show ?case by simp
next
  case (Suc n)
  show ?case
  proof (cases "2 powi (e + 1) \<le> x")
    case True
    with Suc.prems have "2 powi (e + 1) \<le> y" by simp
    with True Suc.IH [OF Suc.prems, of "e + 1"] show ?thesis by simp
  next
    case False
    have "e \<le> exponent_from (Suc n) e y" using exponent_from_spec [of e "Suc n" y] by blast
    with False show ?thesis by simp
  qed
qed

lemma f32_exponent_range: "- 126 \<le> f32_exponent x" "f32_exponent x \<le> 127"
  using exponent_from_spec [of "- 126" 253 "\<bar>x\<bar>"] by (simp_all add: f32_exponent_def)

lemma f32_exponent_normal: "- 126 < f32_exponent x \<Longrightarrow> 2 powi (f32_exponent x) \<le> \<bar>x\<bar>"
  using exponent_from_spec [of "- 126" 253 "\<bar>x\<bar>"] by (simp add: f32_exponent_def)

lemma f32_exponent_upper: "f32_exponent x < 127 \<Longrightarrow> \<bar>x\<bar> < 2 powi (f32_exponent x + 1)"
  using exponent_from_spec [of "- 126" 253 "\<bar>x\<bar>"] by (simp add: f32_exponent_def)

lemma f32_exponent_mono: "\<bar>x\<bar> \<le> \<bar>y\<bar> \<Longrightarrow> f32_exponent x \<le> f32_exponent y"
  unfolding f32_exponent_def by (rule exponent_from_mono)

lemma ulp_times: "(2::real) powi 23 * 2 powi (e - 23) = 2 powi e"
  using power_int_add [of "2::real" 23 "e - 23"] by simp

lemma ulp_times_24: "(2::real) powi 24 * 2 powi (e - 23) = 2 powi (e + 1)"
  using power_int_add [of "2::real" 24 "e - 23"] by (simp add: add.commute)

lemma f32_nearest_nonneg: "0 \<le> x \<Longrightarrow> 0 \<le> f32_nearest x"
proof -
  assume "0 \<le> x"
  then have "of_int 0 \<le> x / 2 powi (f32_exponent x - 23)" by simp
  then have "0 \<le> round_half_even (x / 2 powi (f32_exponent x - 23))" by (rule round_half_even_ge)
  then show ?thesis by (simp add: f32_nearest_def Let_def)
qed

lemma f32_nearest_ge_binade:
  assumes "0 \<le> x" "- 126 < f32_exponent x"
  shows "2 powi (f32_exponent x) \<le> f32_nearest x"
proof -
  define e where "e = f32_exponent x"
  define u :: real where "u = 2 powi (e - 23)"
  have u: "0 < u" by (simp add: u_def)
  have "2 powi e \<le> x" using f32_exponent_normal [OF assms(2)] assms(1) by (simp add: e_def)
  then have "2 powi 23 * u \<le> x" unfolding u_def by (simp only: ulp_times)
  then have "of_int (2 ^ 23) \<le> x / u" using u by (simp add: pos_le_divide_eq)
  then have "2 ^ 23 \<le> round_half_even (x / u)" by (rule round_half_even_ge)
  then have "real_of_int (2 ^ 23) \<le> real_of_int (round_half_even (x / u))" by (simp only: of_int_le_iff)
  then have "real_of_int (2 ^ 23) * u \<le> real_of_int (round_half_even (x / u)) * u"
    using u by (simp only: mult_le_cancel_right_pos)
  moreover have "real_of_int (2 ^ 23) * u = 2 powi e" using ulp_times [of e] by (simp add: u_def)
  ultimately show ?thesis by (simp add: f32_nearest_def Let_def e_def [symmetric] u_def [symmetric])
qed

lemma f32_nearest_le_binade:
  assumes "0 \<le> x" "f32_exponent x < 127"
  shows "f32_nearest x \<le> 2 powi (f32_exponent x + 1)"
proof -
  define e where "e = f32_exponent x"
  define u :: real where "u = 2 powi (e - 23)"
  have u: "0 < u" by (simp add: u_def)
  have "x < 2 powi (e + 1)" using f32_exponent_upper [OF assms(2)] assms(1) by (simp add: e_def)
  then have "x \<le> 2 powi 24 * u" unfolding u_def by (simp only: ulp_times_24)
  then have "x / u \<le> of_int (2 ^ 24)" using u by (simp add: pos_divide_le_eq)
  then have "round_half_even (x / u) \<le> 2 ^ 24" by (rule round_half_even_le)
  then have "real_of_int (round_half_even (x / u)) \<le> real_of_int (2 ^ 24)" by (simp only: of_int_le_iff)
  then have "real_of_int (round_half_even (x / u)) * u \<le> real_of_int (2 ^ 24) * u"
    using u by (simp only: mult_le_cancel_right_pos)
  moreover have "real_of_int (2 ^ 24) * u = 2 powi (e + 1)" using ulp_times_24 [of e] by (simp add: u_def)
  ultimately show ?thesis by (simp add: f32_nearest_def Let_def e_def [symmetric] u_def [symmetric])
qed

lemma f32_nearest_mono:
  assumes "0 \<le> x" "x \<le> y"
  shows "f32_nearest x \<le> f32_nearest y"
proof -
  have le: "f32_exponent x \<le> f32_exponent y" using assms by (intro f32_exponent_mono) simp
  show ?thesis
  proof (cases "f32_exponent x = f32_exponent y")
    case True
    define u :: real where "u = 2 powi (f32_exponent y - 23)"
    have u: "0 < u" by (simp add: u_def)
    have "x / u \<le> y / u" using assms(2) u by (simp add: divide_right_mono)
    then have "round_half_even (x / u) \<le> round_half_even (y / u)" by (rule round_half_even_mono)
    then have "real_of_int (round_half_even (x / u)) * u \<le> real_of_int (round_half_even (y / u)) * u"
      using u by simp
    then show ?thesis by (simp add: f32_nearest_def Let_def True u_def [symmetric])
  next
    case False
    with le have lt: "f32_exponent x < f32_exponent y" by simp
    have "f32_exponent x < 127" using lt f32_exponent_range(2) [of y] by simp
    then have "f32_nearest x \<le> 2 powi (f32_exponent x + 1)"
      using assms(1) by (intro f32_nearest_le_binade)
    also have "\<dots> \<le> 2 powi (f32_exponent y)"
      using lt by (intro power_int_increasing) simp_all
    also have "\<dots> \<le> f32_nearest y"
    proof (rule f32_nearest_ge_binade)
      show "0 \<le> y" using assms by simp
      show "- 126 < f32_exponent y" using lt f32_exponent_range(1) [of x] by simp
    qed
    finally show ?thesis .
  qed
qed

lemma f32_round_mono:
  assumes "0 \<le> x" "x \<le> y" "f32_round y = Finite ry"
  shows "\<exists>rx. f32_round x = Finite rx \<and> 0 \<le> rx \<and> rx \<le> ry"
proof -
  have ry: "ry = f32_nearest y" "\<not> 2 powi 128 \<le> f32_nearest y"
    using assms(3) by (auto simp: f32_round_def Let_def split: if_splits)
  have "f32_nearest x \<le> f32_nearest y" using assms(1,2) by (rule f32_nearest_mono)
  moreover have "0 \<le> f32_nearest x" using assms(1) by (rule f32_nearest_nonneg)
  moreover have "(0::real) < 2 powi 128" by simp
  ultimately have "f32_round x = Finite (f32_nearest x)"
    using ry(2) by (simp add: f32_round_def Let_def)
  then show ?thesis
    using \<open>f32_nearest x \<le> f32_nearest y\<close> \<open>0 \<le> f32_nearest x\<close> ry(1) by simp
qed

lemma f32_round_between:
  assumes "is_f32 a" "is_f32 b" "0 \<le> a" "a \<le> x" "x \<le> b"
  shows "\<exists>r. f32_round x = Finite r \<and> a \<le> r \<and> r \<le> b"
proof -
  have x: "0 \<le> x" using assms(3,4) by simp
  from f32_round_mono [OF x assms(5)] assms(2) obtain r where
    r: "f32_round x = Finite r" "r \<le> b" by (auto simp: is_f32_def)
  from f32_round_mono [OF assms(3,4) r(1)] assms(1) have "a \<le> r" by (auto simp: is_f32_def)
  with r show ?thesis by blast
qed

lemma is_f32_0: "is_f32 0" by (simp add: is_f32_def f32_round_def f32_nearest_def round_half_even_def)

lemma is_f32_half: "is_f32 (1 / 2)" unfolding is_f32_def by code_simp
lemma is_f32_1: "is_f32 1" unfolding is_f32_def by code_simp
lemma is_f32_50: "is_f32 50" unfolding is_f32_def by code_simp
lemma is_f32_100: "is_f32 100" unfolding is_f32_def by code_simp

subsection \<open>Reshaping and resizing\<close>

lemma length_reshape2: "length (reshape2 r c xs) = r"
  by (induction r arbitrary: xs) auto

lemma rows_reshape2: "length xs = r * c \<Longrightarrow> row \<in> set (reshape2 r c xs) \<Longrightarrow> length row = c"
proof (induction r arbitrary: xs)
  case 0
  then show ?case by simp
next
  case (Suc r)
  from Suc.prems(2) consider "row = take c xs" | "row \<in> set (reshape2 r c (drop c xs))"
    by auto
  then show ?case
  proof cases
    case 1
    with Suc.prems(1) show ?thesis by simp
  next
    case 2
    have "length (drop c xs) = r * c" using Suc.prems(1) by simp
    from Suc.IH [OF this 2] show ?thesis .
  qed
qed

lemma concat_reshape2: "concat (reshape2 r c xs) = take (r * c) xs"
proof (induction r arbitrary: xs)
  case 0
  then show ?case by simp
next
  case (Suc r)
  have "take c xs @ take (r * c) (drop c xs) = take (c + r * c) xs"
    by (simp add: take_add)
  with Suc show ?case by simp
qed

lemma length_concat_replicate: "length (concat (replicate k xs)) = k * length xs"
  by (induction k) auto

lemma ceil_div_covers: "0 < m \<Longrightarrow> n \<le> ((n + m - 1) div m) * (m::nat)"
proof -
  assume m: "0 < m"
  have "(n + m - 1) mod m < m" using m by simp
  moreover have "((n + m - 1) div m) * m + (n + m - 1) mod m = n + m - 1" by simp
  ultimately show ?thesis by linarith
qed

lemma set_concat_replicate: "set (concat (replicate k ys)) \<subseteq> set ys"
  by (induction k) auto

lemma np_resize_empty:
  "concat a = [] \<or> r * c = 0 \<Longrightarrow> np_resize a (r, c) = replicate r (replicate c (Finite 0))"
  by (auto simp: np_resize_def)

lemma np_resize_nonempty:
  assumes a: "concat a \<noteq> []" and rc: "r * c \<noteq> 0"
  shows "\<exists>xs. length xs = r * c \<and> set xs \<subseteq> set (concat a) \<and> np_resize a (r, c) = reshape2 r c xs"
proof -
  define k where "k = (r * c + length (concat a) - 1) div length (concat a)"
  define xs where "xs = take (r * c) (concat (replicate k (concat a)))"
  have "r * c \<le> k * length (concat a)"
    unfolding k_def using ceil_div_covers [of "length (concat a)" "r * c"] a by simp
  then have "length xs = r * c"
    by (simp add: xs_def length_concat_replicate)
  moreover have "set xs \<subseteq> set (concat (replicate k (concat a)))"
    unfolding xs_def by (rule set_take_subset)
  then have "set xs \<subseteq> set (concat a)"
    using set_concat_replicate [of k "concat a"] by (rule subset_trans)
  moreover have "np_resize a (r, c) = reshape2 r c xs"
    using a rc by (simp add: np_resize_def Let_def xs_def k_def del: concat_eq_Nil_conv)
  ultimately show ?thesis by blast
qed

lemma np_resize_shape:
  "length (np_resize a (r, c)) = r \<and> (\<forall>row \<in> set (np_resize a (r, c)). length row = c)"
proof (cases "concat a = [] \<or> r * c = 0")
  case True
  then show ?thesis
    by (simp add: np_resize_empty)
next
  case False
  then obtain xs where xs: "length xs = r * c" "np_resize a (r, c) = reshape2 r c xs"
    using np_resize_nonempty [of a r c] by blast
  show ?thesis
    unfolding xs(2) using rows_reshape2 [OF xs(1)] by (simp add: length_reshape2)
qed

lemma length_flat_np_resize: "length (concat (np_resize a (r, c))) = r * c"
proof (cases "concat a = [] \<or> r * c = 0")
  case True
  then show ?thesis
    by (simp add: np_resize_empty length_concat sum_list_replicate)
next
  case False
  then obtain xs where xs: "length xs = r * c" "np_resize a (r, c) = reshape2 r c xs"
    using np_resize_nonempty [of a r c] by blast
  show ?thesis
    unfolding xs(2) by (simp add: concat_reshape2 xs(1))
qed

lemma concat_replicate_mult: "concat (replicate m (concat (replicate n xs))) = concat (replicate (m * n) xs)"
  by (induction m) (auto simp: replicate_add)

lemma reshape2_tiles: "length row = c \<Longrightarrow> reshape2 r c (concat (replicate r row)) = replicate r row"
  by (induction r) auto

lemma np_resize_tiles:
  assumes "row \<noteq> []" "0 < r" "0 < k"
  shows "np_resize (replicate r row) (r, k * length row) = replicate r (concat (replicate k row))"
proof -
  define flat where "flat = concat (replicate r row)"
  have len: "length flat = r * length row" by (simp add: flat_def length_concat_replicate)
  have pos: "0 < r * length row" using assms by simp
  have ne: "flat \<noteq> []" using len pos by auto
  have "(r * (k * length row) + length flat - 1) div length flat = k"
  proof -
    define n where "n = r * length row"
    have n: "0 < n" "length flat = n" "r * (k * length row) = k * n"
      using pos len by (simp_all add: n_def)
    have "k * n + n - 1 = k * n + (n - 1)" using n(1) by linarith
    moreover have "(k * n + (n - 1)) div n = k + (n - 1) div n"
      using n(1) div_mult_self3 [of n k "n - 1"] by blast
    moreover have "(n - 1) div n = 0" using n(1) by (intro div_less) linarith
    ultimately show ?thesis using n by presburger
  qed
  moreover have "concat (replicate k flat) = concat (replicate r (concat (replicate k row)))"
    by (simp add: flat_def concat_replicate_mult mult.commute)
  moreover have "length (concat (replicate r (concat (replicate k row)))) = r * (k * length row)"
    by (simp add: length_concat_replicate)
  ultimately show ?thesis
    using ne assms
    by (simp add: np_resize_def Let_def flat_def [symmetric] reshape2_tiles length_concat_replicate
        del: concat_eq_Nil_conv)
qed

lemma concat_replicate_replicate: "concat (replicate r (replicate c x)) = replicate (r * c) x"
  by (induction r) (auto simp: replicate_add)

lemma np_resize_constant:
  assumes "concat D \<noteq> []" and "\<forall>x \<in> set (concat D). x = a" and "r * c \<noteq> 0"
  shows "np_resize D (r, c) = replicate r (replicate c a)"
proof -
  from np_resize_nonempty [OF assms(1,3)] obtain xs where
    xs: "length xs = r * c" "set xs \<subseteq> set (concat D)" "np_resize D (r, c) = reshape2 r c xs"
    by blast
  have "\<forall>y \<in> set xs. y = a" using xs(2) assms(2) by blast
  then have "replicate (length xs) a = xs" by (rule replicate_length_same)
  then have "xs = concat (replicate r (replicate c a))"
    by (simp add: xs(1) concat_replicate_replicate)
  then show ?thesis
    by (simp add: xs(3) reshape2_tiles)
qed

lemma np_resize_never_empty: "concat (np_resize D (128, 128)) \<noteq> []"
proof
  assume "concat (np_resize D (128, 128)) = []"
  then have "length (concat (np_resize D (128, 128))) = 0" by (simp only: list.size)
  then show False by (simp only: length_flat_np_resize)
qed

lemma np_resize_entries_finite:
  assumes "\<forall>x \<in> set (concat D). \<exists>v. x = Finite v"
  shows "\<forall>x \<in> set (concat (np_resize D (r, c))). \<exists>v. x = Finite v"
proof (cases "concat D = [] \<or> r * c = 0")
  case True
  then have "np_resize D (r, c) = replicate r (replicate c (Finite 0))" by (rule np_resize_empty)
  then show ?thesis by (auto simp: concat_replicate_replicate)
next
  case False
  then have "concat D \<noteq> []" "r * c \<noteq> 0" by simp_all
  from np_resize_nonempty [OF this] obtain xs where
    xs: "length xs = r * c" "set xs \<subseteq> set (concat D)" "np_resize D (r, c) = reshape2 r c xs"
    by blast
  have "set (concat (np_resize D (r, c))) \<subseteq> set xs"
    unfolding xs(3) concat_reshape2 by (rule set_take_subset)
  with xs(2) assms show ?thesis by blast
qed

subsection \<open>Minimum and maximum of an array of finite values\<close>

lemma fold_fl_min_bound:
  assumes "\<forall>x \<in> set xs. \<exists>v. x = Finite v \<and> lo \<le> v" "lo \<le> a" "a = lo \<or> Finite lo \<in> set xs"
  shows "fold fl_min xs (Finite a) = Finite lo"
  using assms
proof (induction xs arbitrary: a)
  case Nil
  then show ?case by simp
next
  case (Cons x xs)
  from Cons.prems(1) obtain v where v: "x = Finite v" "lo \<le> v" by auto
  have step: "fl_min x (Finite a) = Finite (min v a)"
    by (auto simp: v fl_min_def)
  have "fold fl_min xs (Finite (min v a)) = Finite lo"
  proof (rule Cons.IH)
    show "\<forall>x \<in> set xs. \<exists>v. x = Finite v \<and> lo \<le> v" using Cons.prems(1) by simp
    show "lo \<le> min v a" using v Cons.prems(2) by simp
    show "min v a = lo \<or> Finite lo \<in> set xs" using v Cons.prems(2,3) by auto
  qed
  then show ?case by (simp add: step)
qed

lemma fold_fl_max_bound:
  assumes "\<forall>x \<in> set xs. \<exists>v. x = Finite v \<and> v \<le> hi" "a \<le> hi" "a = hi \<or> Finite hi \<in> set xs"
  shows "fold fl_max xs (Finite a) = Finite hi"
  using assms
proof (induction xs arbitrary: a)
  case Nil
  then show ?case by simp
next
  case (Cons x xs)
  from Cons.prems(1) obtain v where v: "x = Finite v" "v \<le> hi" by auto
  have step: "fl_max x (Finite a) = Finite (max v a)"
    by (auto simp: v fl_max_def)
  have "fold fl_max xs (Finite (max v a)) = Finite hi"
  proof (rule Cons.IH)
    show "\<forall>x \<in> set xs. \<exists>v. x = Finite v \<and> v \<le> hi" using Cons.prems(1) by simp
    show "max v a \<le> hi" using v Cons.prems(2) by simp
    show "max v a = hi \<or> Finite hi \<in> set xs" using v Cons.prems(2,3) by auto
  qed
  then show ?case by (simp add: step)
qed

lemma np_min_bound:
  assumes "Finite lo \<in> set (concat a)" "\<forall>x \<in> set (concat a). \<exists>v. x = Finite v \<and> lo \<le> v"
  shows "np_min a = Inr (Finite lo)"
proof (cases "concat a")
  case Nil
  with assms(1) show ?thesis by simp
next
  case (Cons x xs)
  from assms(2) Cons obtain v where v: "x = Finite v" "lo \<le> v" by auto
  have "fold fl_min xs (Finite v) = Finite lo"
  proof (rule fold_fl_min_bound)
    show "\<forall>x \<in> set xs. \<exists>v. x = Finite v \<and> lo \<le> v" using assms(2) Cons by simp
    show "lo \<le> v" by (rule v(2))
    show "v = lo \<or> Finite lo \<in> set xs" using assms(1) Cons v(1) by auto
  qed
  then show ?thesis by (simp add: np_min_def Cons v(1))
qed

lemma np_max_bound:
  assumes "Finite hi \<in> set (concat a)" "\<forall>x \<in> set (concat a). \<exists>v. x = Finite v \<and> v \<le> hi"
  shows "np_max a = Inr (Finite hi)"
proof (cases "concat a")
  case Nil
  with assms(1) show ?thesis by simp
next
  case (Cons x xs)
  from assms(2) Cons obtain v where v: "x = Finite v" "v \<le> hi" by auto
  have "fold fl_max xs (Finite v) = Finite hi"
  proof (rule fold_fl_max_bound)
    show "\<forall>x \<in> set xs. \<exists>v. x = Finite v \<and> v \<le> hi" using assms(2) Cons by simp
    show "v \<le> hi" by (rule v(2))
    show "v = hi \<or> Finite hi \<in> set xs" using assms(1) Cons v(1) by auto
  qed
  then show ?thesis by (simp add: np_max_def Cons v(1))
qed

lemma finite_values: "finite {v. Finite v \<in> set xs}"
proof -
  have "{v. Finite v \<in> set xs} \<subseteq> (\<lambda>x. case x of Finite v \<Rightarrow> v | _ \<Rightarrow> 0) ` set xs"
  proof
    fix v assume "v \<in> {v. Finite v \<in> set xs}"
    then have "Finite v \<in> set xs" by simp
    then show "v \<in> (\<lambda>x. case x of Finite v \<Rightarrow> v | _ \<Rightarrow> 0) ` set xs"
      by (rule image_eqI [rotated]) simp
  qed
  then show ?thesis by (rule finite_subset) simp
qed

lemma np_min_finite:
  assumes "concat A \<noteq> []" and "\<forall>x \<in> set (concat A). \<exists>v. x = Finite v"
  shows "\<exists>lo. np_min A = Inr (Finite lo) \<and> (\<forall>v. Finite v \<in> set (concat A) \<longrightarrow> lo \<le> v)"
proof -
  define V where "V = {v. Finite v \<in> set (concat A)}"
  have fin: "finite V" unfolding V_def by (rule finite_values)
  have ne: "V \<noteq> {}"
  proof -
    have "hd (concat A) \<in> set (concat A)" using assms(1) by (rule hd_in_set)
    moreover from this assms(2) obtain v where "hd (concat A) = Finite v" by blast
    ultimately have "v \<in> V" by (simp add: V_def del: set_concat)
    then show ?thesis by blast
  qed
  have "Min V \<in> V" using fin ne by (rule Min_in)
  then have mem: "Finite (Min V) \<in> set (concat A)" by (simp add: V_def del: set_concat)
  have le: "\<forall>x \<in> set (concat A). \<exists>v. x = Finite v \<and> Min V \<le> v"
  proof
    fix x assume x: "x \<in> set (concat A)"
    with assms(2) obtain v where v: "x = Finite v" by blast
    with x have "v \<in> V" by (simp add: V_def del: set_concat)
    then have "Min V \<le> v" using fin by simp
    with v show "\<exists>v. x = Finite v \<and> Min V \<le> v" by blast
  qed
  have "np_min A = Inr (Finite (Min V))" using mem le by (rule np_min_bound)
  moreover have "\<forall>v. Finite v \<in> set (concat A) \<longrightarrow> Min V \<le> v" using le by blast
  ultimately show ?thesis by blast
qed

lemma np_max_finite:
  assumes "concat A \<noteq> []" and "\<forall>x \<in> set (concat A). \<exists>v. x = Finite v"
  shows "\<exists>hi. np_max A = Inr (Finite hi) \<and> (\<forall>v. Finite v \<in> set (concat A) \<longrightarrow> v \<le> hi)"
proof -
  define V where "V = {v. Finite v \<in> set (concat A)}"
  have fin: "finite V" unfolding V_def by (rule finite_values)
  have ne: "V \<noteq> {}"
  proof -
    have "hd (concat A) \<in> set (concat A)" using assms(1) by (rule hd_in_set)
    moreover from this assms(2) obtain v where "hd (concat A) = Finite v" by blast
    ultimately have "v \<in> V" by (simp add: V_def del: set_concat)
    then show ?thesis by blast
  qed
  have "Max V \<in> V" using fin ne by (rule Max_in)
  then have mem: "Finite (Max V) \<in> set (concat A)" by (simp add: V_def del: set_concat)
  have le: "\<forall>x \<in> set (concat A). \<exists>v. x = Finite v \<and> v \<le> Max V"
  proof
    fix x assume x: "x \<in> set (concat A)"
    with assms(2) obtain v where v: "x = Finite v" by blast
    with x have "v \<in> V" by (simp add: V_def del: set_concat)
    then have "v \<le> Max V" using fin by simp
    with v show "\<exists>v. x = Finite v \<and> v \<le> Max V" by blast
  qed
  have "np_max A = Inr (Finite (Max V))" using mem le by (rule np_max_bound)
  moreover have "\<forall>v. Finite v \<in> set (concat A) \<longrightarrow> v \<le> Max V" using le by blast
  ultimately show ?thesis by blast
qed

subsection \<open>The feature extractor\<close>

lemma f32_round_0: "f32_round 0 = Finite 0"
  using is_f32_0 by (simp add: is_f32_def)

lemma f32_round_1: "f32_round 1 = Finite 1"
  using is_f32_1 by (simp add: is_f32_def)

lemma f32_round_80: "f32_round 80 = Finite 80"
  by code_simp

lemma audio_to_spectrogram_Some:
  assumes "audio_to_spectrogram L file_bytes = Some S"
  shows "\<exists>y sr P D lo hi.
           load L file_bytes = Inr (y, sr) \<and> melspectrogram L y sr 128 = Inr P \<and>
           power_to_db L P = Inr D \<and>
           np_min (np_resize D (128, 128)) = Inr lo \<and> np_max (np_resize D (128, 128)) = Inr hi \<and>
           S = map (map (\<lambda>x. fl_div (fl_sub x lo) (fl_sub hi lo))) (np_resize D (128, 128))"
  using assms
  by (auto simp: audio_to_spectrogram_def Let_def split: sum.splits prod.splits)

lemma constant_spectrogram_normalises_to_nan:
  assumes "load L file_bytes = Inr (y, sr)" and "melspectrogram L y sr 128 = Inr P"
    and "power_to_db L P = Inr D"
    and "concat D \<noteq> []" and "\<forall>x \<in> set (concat D). x = Finite v"
  shows "audio_to_spectrogram L file_bytes = Some (replicate 128 (replicate 128 NaN))"
proof -
  let ?A = "replicate 128 (replicate 128 (Finite v))"
  have A: "np_resize D (128, 128) = ?A"
    using np_resize_constant [OF assms(4,5), of 128 128] by simp
  have lo: "np_min ?A = Inr (Finite v)"
    by (rule np_min_bound) simp_all
  have hi: "np_max ?A = Inr (Finite v)"
    by (rule np_max_bound) simp_all
  show ?thesis
    using assms(1-3)
    by (simp add: audio_to_spectrogram_def A lo hi fl_sub_def f32_round_0 signed_inf_def)
qed

lemma positive_range_normalises_to_unit_interval:
  assumes "load L file_bytes = Inr (y, sr)" and "melspectrogram L y sr 128 = Inr P"
    and "power_to_db L P = Inr D"
    and Dfin: "\<forall>x \<in> set (concat D). \<exists>v. x = Finite v"
    and lo: "np_min (np_resize D (128, 128)) = Inr lo"
    and hi: "np_max (np_resize D (128, 128)) = Inr hi"
    and d: "fl_sub hi lo = Finite d" "0 < d"
  shows "\<exists>S. audio_to_spectrogram L file_bytes = Some S \<and> list_all (list_all in_unit_interval) S"
proof -
  define A where "A = np_resize D (128, 128)"
  have ne: "concat A \<noteq> []" unfolding A_def by (rule np_resize_never_empty)
  have Afin: "\<forall>x \<in> set (concat A). \<exists>v. x = Finite v"
    unfolding A_def using Dfin by (rule np_resize_entries_finite)
  from np_min_finite [OF ne Afin] lo obtain lv where
    lv: "lo = Finite lv" "\<forall>v. Finite v \<in> set (concat A) \<longrightarrow> lv \<le> v" by (auto simp: A_def)
  from np_max_finite [OF ne Afin] hi obtain hv where
    hv: "hi = Finite hv" "\<forall>v. Finite v \<in> set (concat A) \<longrightarrow> v \<le> hv" by (auto simp: A_def)
  have den: "f32_round (hv - lv) = Finite d" using d(1) by (simp add: lv(1) hv(1) fl_sub_def)
  have entry: "in_unit_interval (fl_div (fl_sub x lo) (fl_sub hi lo))"
    if "x \<in> set (concat A)" for x
  proof -
    from that Afin obtain v where v: "x = Finite v" by blast
    with that lv(2) hv(2) have "0 \<le> v - lv" "v - lv \<le> hv - lv" by force+
    from f32_round_mono [OF this den] obtain n where
      n: "f32_round (v - lv) = Finite n" "0 \<le> n" "n \<le> d" by blast
    have "0 \<le> n / d" "n / d \<le> 1" using n(2,3) d(2) by simp_all
    from f32_round_between [OF is_f32_0 is_f32_1 order_refl this] obtain q where
      "f32_round (n / d) = Finite q" "0 \<le> q" "q \<le> 1" by blast
    then show ?thesis
      using n(1) d by (simp add: v lv(1) fl_sub_def in_unit_interval_def)
  qed
  have "audio_to_spectrogram L file_bytes =
          Some (map (map (\<lambda>x. fl_div (fl_sub x lo) (fl_sub hi lo))) A)"
    using assms(1-3) lo hi by (simp add: audio_to_spectrogram_def A_def)
  moreover have "list_all (list_all in_unit_interval)
          (map (map (\<lambda>x. fl_div (fl_sub x lo) (fl_sub hi lo))) A)"
    using entry by (auto simp: list_all_iff)
  ultimately show ?thesis by blast
qed

lemma two_frame_resized:
  "np_resize (replicate 128 [Finite 0, Finite (- 80)]) (128, 128)
     = replicate 128 (concat (replicate 64 [Finite 0, Finite (- 80)]))"
  using np_resize_tiles [of "[Finite 0, Finite (- 80)]" 128 64] by simp

lemma silent_resized:
  "np_resize (replicate 128 [Finite 0]) (128, 128) = replicate 128 (replicate 128 (Finite 0))"
  using np_resize_tiles [of "[Finite 0]" 128 128] by simp

lemma two_frame_spectrogram:
  "audio_to_spectrogram two_frame_librosa file_bytes = Some two_frame_normalised"
proof -
  let ?A = "replicate 128 (concat (replicate 64 [Finite 0, Finite (- 80)]))"
  have lo: "np_min ?A = Inr (Finite (- 80))"
    by (rule np_min_bound) simp_all
  have hi: "np_max ?A = Inr (Finite 0)"
    by (rule np_max_bound) simp_all
  show ?thesis
    by (simp add: audio_to_spectrogram_def two_frame_librosa_def two_frame_resized lo hi
        fl_sub_def map_concat two_frame_normalised_def f32_round_0 f32_round_1 f32_round_80)
qed

lemma silent_spectrogram:
  "audio_to_spectrogram silent_librosa file_bytes = Some (replicate 128 (replicate 128 NaN))"
proof -
  let ?A = "replicate 128 (replicate 128 (Finite 0))"
  have lo: "np_min ?A = Inr (Finite 0)"
    by (rule np_min_bound) simp_all
  have hi: "np_max ?A = Inr (Finite 0)"
    by (rule np_max_bound) simp_all
  show ?thesis
    by (simp add: audio_to_spectrogram_def silent_librosa_def silent_resized lo hi
        fl_sub_def f32_round_0 signed_inf_def)
qed

subsection \<open>The prediction route\<close>

lemma predict_audio_success:
  assumes "read file = Inr file_bytes" "audio_to_spectrogram L file_bytes = Some spectrogram"
    "m (add_axes spectrogram) = Inr out" "index_0_0 out = Inr pred"
  shows "predict_audio L (Some m) file =
    (Returned (result_dict pred), [Feature_extraction file_bytes, Forward_pass (add_axes spectrogram)])"
  using assms by (simp add: predict_audio_def Let_def)

lemma predict_audio_Returned:
  assumes "predict_audio L mdl file = (Returned d, calls)"
  shows "\<exists>m file_bytes spectrogram out pred.
           mdl = Some m \<and> read file = Inr file_bytes \<and>
           audio_to_spectrogram L file_bytes = Some spectrogram \<and>
           m (add_axes spectrogram) = Inr out \<and> index_0_0 out = Inr pred \<and>
           d = result_dict pred \<and>
           calls = [Feature_extraction file_bytes, Forward_pass (add_axes spectrogram)]"
  using assms
  by (auto simp: predict_audio_def Let_def split: option.splits sum.splits)

lemma audio_to_spectrogram_shape:
  assumes "audio_to_spectrogram L file_bytes = Some S"
  shows "has_shape2 S (128, 128)"
proof -
  from audio_to_spectrogram_Some [OF assms] obtain D lo hi where
    S: "S = map (map (\<lambda>x. fl_div (fl_sub x lo) (fl_sub hi lo))) (np_resize D (128, 128))"
    by blast
  show ?thesis
    using np_resize_shape [of D 128 128]
    by (simp add: S has_shape2_def list_all_iff)
qed

lemma add_axes_shape: "has_shape2 S (r, c) \<Longrightarrow> has_shape4 (add_axes S) (1, r, c, 1)"
  by (simp add: has_shape2_def has_shape4_def add_axes_def list_all_iff)

lemma result_dict_eq:
  "result_dict pred =
     [(''prediction'', JStr (if fl_less pred (Finite (1 / 2)) then ''HUMAN'' else ''AI-GENERATED'')),
      (''confidence'', JNum (py_round (if fl_less pred (Finite (1 / 2))
                                       then fl_mul (fl_sub (Finite 1) pred) (Finite 100)
                                       else fl_mul pred (Finite 100)) 2))]"
  by (simp add: result_dict_def interpret_result_def)

lemma extractor_repeatable:
  assumes "load L1 b = load L2 b"
    and "\<And>y sr. load L1 b = Inr (y, sr) \<Longrightarrow> melspectrogram L1 y sr 128 = melspectrogram L2 y sr 128"
    and "\<And>y sr S. load L1 b = Inr (y, sr) \<Longrightarrow> melspectrogram L1 y sr 128 = Inr S \<Longrightarrow>
           power_to_db L1 S = power_to_db L2 S"
  shows "audio_to_spectrogram L1 b = audio_to_spectrogram L2 b"
proof (cases "load L1 b")
  case (Inl e)
  moreover from this assms(1) have "load L2 b = Inl e" by simp
  ultimately show ?thesis by (simp add: audio_to_spectrogram_def)
next
  case (Inr w)
  obtain y sr where w: "w = (y, sr)" by (cases w)
  have l1: "load L1 b = Inr (y, sr)" using Inr w by simp
  then have l2: "load L2 b = Inr (y, sr)" using assms(1) by simp
  have mel: "melspectrogram L1 y sr 128 = melspectrogram L2 y sr 128" by (rule assms(2) [OF l1])
  show ?thesis
  proof (cases "melspectrogram L1 y sr 128")
    case (Inl e)
    moreover from this mel have "melspectrogram L2 y sr 128 = Inl e" by simp
    ultimately show ?thesis using l1 l2 by (simp add: audio_to_spectrogram_def)
  next
    case (Inr S)
    moreover from this mel have "melspectrogram L2 y sr 128 = Inr S" by simp
    moreover have "power_to_db L1 S = power_to_db L2 S" by (rule assms(3) [OF l1 Inr])
    ultimately show ?thesis using l1 l2 by (simp add: audio_to_spectrogram_def)
  qed
qed

lemma result_dict_quarter:
  "result_dict (Finite (1 / 4)) = [(''prediction'', JStr ''HUMAN''), (''confidence'', JNum (Finite 75))]"
  by code_simp

lemma result_dict_half:
  "result_dict (Finite (1 / 2)) = [(''prediction'', JStr ''AI-GENERATED''), (''confidence'', JNum (Finite 50))]"
  by code_simp

lemma result_dict_at_82:
  "result_dict (Finite (6879917 / 8388608)) =
     [(''prediction'', JStr ''AI-GENERATED''), (''confidence'', JNum (Finite (8201 / 100)))]"
  by code_simp

lemma is_f32_quarter: "is_f32 (1 / 4)"
  unfolding is_f32_def by code_simp

lemma py_round_between:
  assumes "of_int a \<le> x" "x \<le> of_int b"
  shows "\<exists>c. py_round (Finite x) 2 = Finite c \<and> of_int a \<le> c \<and> c \<le> of_int b"
proof -
  define c where "c = real_of_int (round_half_even (x * 10\<^sup>2)) / 10\<^sup>2"
  have "a * 100 \<le> round_half_even (x * 10\<^sup>2)"
    using assms(1) by (intro round_half_even_ge) simp
  then have "real_of_int (a * 100) \<le> real_of_int (round_half_even (x * 10\<^sup>2))"
    by (simp only: of_int_le_iff)
  then have lo: "of_int a \<le> c" by (simp add: c_def)
  have "round_half_even (x * 10\<^sup>2) \<le> b * 100"
    using assms(2) by (intro round_half_even_le) simp
  then have "real_of_int (round_half_even (x * 10\<^sup>2)) \<le> real_of_int (b * 100)"
    by (simp only: of_int_le_iff)
  then have hi: "c \<le> of_int b" by (simp add: c_def)
  have "py_round (Finite x) 2 = Finite c" by (simp add: c_def)
  with lo hi show ?thesis by blast
qed

lemma float32_confidence:
  assumes "0 \<le> p" "p \<le> 1"
  shows "\<exists>c. snd (interpret_result (Finite p)) =
               fl_mul (fl_max (Finite p) (fl_sub (Finite 1) (Finite p))) (Finite 100) \<and>
             py_round (snd (interpret_result (Finite p))) 2 = Finite c \<and> 50 \<le> c \<and> c \<le> 100"
proof (cases "p < 1 / 2")
  case True
  then have "1 / 2 \<le> 1 - p" "1 - p \<le> 1" using assms by simp_all
  from f32_round_between [OF is_f32_half is_f32_1 _ this] obtain y where
    y: "f32_round (1 - p) = Finite y" "1 / 2 \<le> y" "y \<le> 1" by auto
  have "50 \<le> y * 100" "y * 100 \<le> 100" using y(2,3) by simp_all
  from f32_round_between [OF is_f32_50 is_f32_100 _ this] obtain v where
    v: "f32_round (y * 100) = Finite v" "50 \<le> v" "v \<le> 100" by auto
  from py_round_between [of 50 v 100] v(2,3) obtain c where
    c: "py_round (Finite v) 2 = Finite c" "50 \<le> c" "c \<le> 100" by auto
  have "snd (interpret_result (Finite p)) = Finite v"
    using True y(1) v(1) by (simp add: interpret_result_def fl_sub_def)
  moreover have "fl_mul (fl_max (Finite p) (fl_sub (Finite 1) (Finite p))) (Finite 100) = Finite v"
    using True y v(1) by (simp add: fl_sub_def fl_max_def)
  ultimately show ?thesis using c by simp
next
  case False
  then have "0 \<le> 1 - p" "1 - p \<le> 1 / 2" using assms by simp_all
  from f32_round_between [OF is_f32_0 is_f32_half _ this] obtain y where
    y: "f32_round (1 - p) = Finite y" "0 \<le> y" "y \<le> 1 / 2" by auto
  have "50 \<le> p * 100" "p * 100 \<le> 100" using False assms by simp_all
  from f32_round_between [OF is_f32_50 is_f32_100 _ this] obtain v where
    v: "f32_round (p * 100) = Finite v" "50 \<le> v" "v \<le> 100" by auto
  from py_round_between [of 50 v 100] v(2,3) obtain c where
    c: "py_round (Finite v) 2 = Finite c" "50 \<le> c" "c \<le> 100" by auto
  have "snd (interpret_result (Finite p)) = Finite v"
    using False v(1) by (simp add: interpret_result_def)
  moreover have "fl_mul (fl_max (Finite p) (fl_sub (Finite 1) (Finite p))) (Finite 100) = Finite v"
    using False y v(1) by (simp add: fl_sub_def fl_max_def)
  ultimately show ?thesis using c by simp
qed

lemma confidence_by_distance:
  assumes "is_f32 p"
  shows "snd (interpret_result (Finite p)) = fl_mul (f32_round (1 / 2 + \<bar>p - 1 / 2\<bar>)) (Finite 100)"
proof (cases "p < 1 / 2")
  case True
  then have "1 / 2 + \<bar>p - 1 / 2\<bar> = 1 - p" by simp
  with True show ?thesis by (simp add: interpret_result_def fl_sub_def)
next
  case False
  then have "1 / 2 + \<bar>p - 1 / 2\<bar> = p" by simp
  with False assms show ?thesis by (simp add: interpret_result_def is_f32_def)
qed

section \<open>The claims\<close>

text \<open>
  Claim C1. For every prediction request where the model is loaded and feature extraction
  succeeds, the label of the response is the model's scalar output thresholded at 0.5:
  \<^verbatim>\<open>HUMAN\<close> when the output is less than 0.5, \<^verbatim>\<open>AI-GENERATED\<close> otherwise (also for an
  output that is NaN, which compares false), and the response carries a confidence beside
  it, rounded to two digits. The scalar output is entry \<^verbatim>\<open>[0][0]\<close> of what the forward pass
  returns.
\<close>

theorem predict_audio_thresholds_at_half:
  assumes "read file = Inr file_bytes"
    and "audio_to_spectrogram L file_bytes = Some spectrogram"
    and "m (add_axes spectrogram) = Inr out"
    and "index_0_0 out = Inr pred"
  shows "fst (predict_audio L (Some m) file) =
     Returned
       [(''prediction'', JStr (if fl_less pred (Finite (1 / 2)) then ''HUMAN'' else ''AI-GENERATED'')),
        (''confidence'', JNum (py_round (if fl_less pred (Finite (1 / 2))
                                         then fl_mul (fl_sub (Finite 1) pred) (Finite 100)
                                         else fl_mul pred (Finite 100)) 2))]"
  using predict_audio_success [where m = m, OF assms] by (simp add: result_dict_eq)

text \<open>The clip of two frames under the model whose output is 0.25: \<^verbatim>\<open>HUMAN\<close>, confidence 75.\<close>

theorem predict_audio_thresholds_at_half_witness:
  "read voice_wav = Inr ''RIFF'' \<and>
   audio_to_spectrogram two_frame_librosa ''RIFF'' = Some two_frame_normalised \<and>
   quarter_model (add_axes two_frame_normalised) = Inr [[Finite (1 / 4)]] \<and>
   index_0_0 [[Finite (1 / 4)]] = Inr (Finite (1 / 4)) \<and>
   fst (predict_audio two_frame_librosa (Some quarter_model) voice_wav) =
     Returned [(''prediction'', JStr ''HUMAN''), (''confidence'', JNum (Finite 75))]"
proof -
  have h1: "read voice_wav = Inr ''RIFF''" by (simp add: voice_wav_def)
  have h2: "audio_to_spectrogram two_frame_librosa ''RIFF'' = Some two_frame_normalised"
    by (rule two_frame_spectrogram)
  have h3: "quarter_model (add_axes two_frame_normalised) = Inr [[Finite (1 / 4)]]"
    by (simp add: quarter_model_def)
  have h4: "index_0_0 [[Finite (1 / 4)]] = Inr (Finite (1 / 4))" by (simp add: index_0_0_def)
  have "fst (predict_audio two_frame_librosa (Some quarter_model) voice_wav) =
          Returned (result_dict (Finite (1 / 4)))"
    using predict_audio_thresholds_at_half [where m = quarter_model, OF h1 h2 h3 h4]
    by (simp add: result_dict_eq)
  then show ?thesis using h1 h2 h3 h4 by (simp add: result_dict_quarter)
qed

text \<open>
  Claim C2 reads the confidence as the distance of the output from 0.5 scaled to a
  percentage, so that the threshold itself maps to 0. At the output 0.5 the response
  carries the confidence 50, where the percentage distance is 0.
\<close>

theorem confidence_at_threshold_counterexample:
  "fst (predict_audio two_frame_librosa (Some half_model) voice_wav) =
     Returned [(''prediction'', JStr ''AI-GENERATED''), (''confidence'', JNum (Finite 50))] \<and>
   py_round (distance_percentage (Finite (1 / 2))) 2 = Finite 0"
proof -
  have h1: "read voice_wav = Inr ''RIFF''" by (simp add: voice_wav_def)
  have h3: "half_model (add_axes two_frame_normalised) = Inr [[Finite (1 / 2)]]"
    by (simp add: half_model_def)
  have h4: "index_0_0 [[Finite (1 / 2)]] = Inr (Finite (1 / 2))" by (simp add: index_0_0_def)
  have "py_round (distance_percentage (Finite (1 / 2))) 2 = Finite 0"
    by (simp add: distance_percentage_def fl_sub_def f32_round_0 round_half_even_def)
  then show ?thesis
    using predict_audio_success [where m = half_model, OF h1 two_frame_spectrogram h3 h4]
    by (simp add: result_dict_half)
qed

text \<open>
  Claim C2, as amended. For every finite \<^verbatim>\<open>float32\<close> model output \<open>p\<close> the confidence of the
  response is 100 times the sum of 0.5 and the distance of \<open>p\<close> from 0.5, computed in
  \<^verbatim>\<open>float32\<close> (the sum rounded, then the product) and rounded to two digits: a function of
  that distance alone, under which the threshold itself maps to 50.
\<close>

theorem confidence_is_a_function_of_the_distance:
  assumes "read file = Inr file_bytes"
    and "audio_to_spectrogram L file_bytes = Some spectrogram"
    and "m (add_axes spectrogram) = Inr out"
    and "index_0_0 out = Inr (Finite p)"
    and "is_f32 p"
  shows "\<exists>label. fst (predict_audio L (Some m) file) =
     Returned [(''prediction'', JStr label),
               (''confidence'',
                JNum (py_round (fl_mul (f32_round (1 / 2 + \<bar>p - 1 / 2\<bar>)) (Finite 100)) 2))]"
  using predict_audio_success [where m = m, OF assms(1-4)] confidence_by_distance [OF assms(5)]
  by (simp add: result_dict_def split: prod.splits)

text \<open>
  At the output 0.25 the distance is 0.25 and the confidence 75; at the distance 0 the
  formula gives 50.
\<close>

theorem confidence_is_a_function_of_the_distance_witness:
  "read voice_wav = Inr ''RIFF'' \<and>
   audio_to_spectrogram two_frame_librosa ''RIFF'' = Some two_frame_normalised \<and>
   quarter_model (add_axes two_frame_normalised) = Inr [[Finite (1 / 4)]] \<and>
   index_0_0 [[Finite (1 / 4)]] = Inr (Finite (1 / 4)) \<and>
   is_f32 (1 / 4) \<and>
   (\<exists>label. fst (predict_audio two_frame_librosa (Some quarter_model) voice_wav) =
     Returned [(''prediction'', JStr label),
               (''confidence'',
                JNum (py_round (fl_mul (f32_round (1 / 2 + \<bar>1 / 4 - 1 / 2\<bar>)) (Finite 100)) 2))]) \<and>
   py_round (fl_mul (f32_round (1 / 2 + \<bar>1 / 4 - 1 / 2\<bar>)) (Finite 100)) 2 = Finite 75 \<and>
   py_round (fl_mul (f32_round (1 / 2 + 0)) (Finite 100)) 2 = Finite 50"
proof -
  have h1: "read voice_wav = Inr ''RIFF''" by (simp add: voice_wav_def)
  have h2: "audio_to_spectrogram two_frame_librosa ''RIFF'' = Some two_frame_normalised"
    by (rule two_frame_spectrogram)
  have h3: "quarter_model (add_axes two_frame_normalised) = Inr [[Finite (1 / 4)]]"
    by (simp add: quarter_model_def)
  have h4: "index_0_0 [[Finite (1 / 4)]] = Inr (Finite (1 / 4))" by (simp add: index_0_0_def)
  have v75: "py_round (fl_mul (f32_round (1 / 2 + \<bar>1 / 4 - 1 / 2\<bar>)) (Finite 100)) 2 = Finite 75"
    by code_simp
  have v50: "py_round (fl_mul (f32_round (1 / 2 + 0)) (Finite 100)) 2 = Finite 50"
    by code_simp
  from confidence_is_a_function_of_the_distance [where m = quarter_model, OF h1 h2 h3 h4 is_f32_quarter]
  show ?thesis using h1 h2 h3 h4 is_f32_quarter v75 v50 by blast
qed

text \<open>
  Claim C3 says that every entry of an array the feature extractor returns lies in
  \<open>[0, 1]\<close>. It does whenever the denominator of line 66 is a positive finite number
  (\<open>positive_range_normalises_to_unit_interval\<close>). A constant spectrogram makes line 66
  divide zero by zero, and the function returns an array of NaN
  (\<open>constant_spectrogram_normalises_to_nan\<close>). Digital silence is such an input: the
  extractor returns 128 rows of 128 NaN, and NaN is not in the unit interval.
\<close>

theorem silent_audio_normalises_to_nan:
  "audio_to_spectrogram silent_librosa ''RIFF'' = Some (replicate 128 (replicate 128 NaN)) \<and>
   \<not> in_unit_interval NaN"
  by (simp add: silent_spectrogram in_unit_interval_def)

text \<open>
  Claim C4. When loading the model raised at startup, \<^verbatim>\<open>model\<close> is \<^verbatim>\<open>None\<close>, and every
  request to the prediction route is answered with status 500 and the body
  \<^verbatim>\<open>{"error": "Model not loaded on server."}\<close>, with no call of the feature extractor or of
  a forward pass; the root route answers as before.
\<close>

theorem model_not_loaded_gives_500:
  "model (Inl e) = None \<and>
   app L (model (Inl e)) (POST_predict file) =
     (JSONResponse 500 [(''error'', JStr ''Model not loaded on server.'')], []) \<and>
   app L (model (Inl e)) GET_root = (root_route, [])"
  by (simp add: model_def app_def predict_audio_def)

text \<open>
  Claim C5. Every array the feature extractor returns has exactly 128 rows of 128 entries,
  whatever librosa made of the audio (its duration and sample rate included).
\<close>

theorem spectrogram_is_128_by_128:
  assumes "audio_to_spectrogram L file_bytes = Some S"
  shows "length S = 128 \<and> list_all (\<lambda>row. length row = 128) S"
  using audio_to_spectrogram_shape [OF assms] by (simp add: has_shape2_def)

text \<open>The clip of two frames: 128 rows of 128 entries.\<close>

theorem spectrogram_is_128_by_128_witness:
  "audio_to_spectrogram two_frame_librosa ''RIFF'' = Some two_frame_normalised \<and>
   length two_frame_normalised = 128 \<and> list_all (\<lambda>row. length row = 128) two_frame_normalised"
  using spectrogram_is_128_by_128 [OF two_frame_spectrogram [of "''RIFF''"]]
  by (simp add: two_frame_spectrogram)

text \<open>
  Claim C6. For every successful prediction (the handler returned its result dict) the
  model was loaded, and the dict is the interpretation of entry \<^verbatim>\<open>[0][0]\<close> of what the forward
  pass returned on one array: the extractor's 128 by 128 output for the uploaded bytes with
  a batch axis in front and a channel axis at the end, of shape (1, 128, 128, 1). The
  request made that call after the call of the extractor, and no other.
\<close>

theorem forward_pass_gets_1_128_128_1:
  assumes "predict_audio L mdl file = (Returned d, calls)"
  shows "\<exists>m file_bytes S out pred.
           mdl = Some m \<and> read file = Inr file_bytes \<and>
           audio_to_spectrogram L file_bytes = Some S \<and>
           has_shape2 S (128, 128) \<and>
           has_shape4 [map (map (\<lambda>x. [x])) S] (1, 128, 128, 1) \<and>
           m [map (map (\<lambda>x. [x])) S] = Inr out \<and> index_0_0 out = Inr pred \<and>
           d = result_dict pred \<and>
           calls = [Feature_extraction file_bytes, Forward_pass [map (map (\<lambda>x. [x])) S]]"
proof -
  from predict_audio_Returned [OF assms] obtain m file_bytes S out pred where
    *: "mdl = Some m" "read file = Inr file_bytes" "audio_to_spectrogram L file_bytes = Some S"
       "m (add_axes S) = Inr out" "index_0_0 out = Inr pred" "d = result_dict pred"
       "calls = [Feature_extraction file_bytes, Forward_pass (add_axes S)]"
    by blast
  have s2: "has_shape2 S (128, 128)" by (rule audio_to_spectrogram_shape [OF *(3)])
  then have s4: "has_shape4 (add_axes S) (1, 128, 128, 1)" by (rule add_axes_shape)
  have ax: "add_axes S = [map (map (\<lambda>x. [x])) S]" by (simp add: add_axes_def)
  show ?thesis
    using * s2 s4 unfolding ax by blast
qed

text \<open>
  The clip of two frames under the model that gives 0.25 on that clip's batch and 0.75 on
  every other: the response is \<^verbatim>\<open>HUMAN\<close> with confidence 75.
\<close>

theorem forward_pass_gets_1_128_128_1_witness:
  "predict_audio two_frame_librosa (Some quarter_on_clip_model) voice_wav =
     (Returned [(''prediction'', JStr ''HUMAN''), (''confidence'', JNum (Finite 75))],
      [Feature_extraction ''RIFF'', Forward_pass [map (map (\<lambda>x. [x])) two_frame_normalised]]) \<and>
   has_shape4 [map (map (\<lambda>x. [x])) two_frame_normalised] (1, 128, 128, 1) \<and>
   quarter_on_clip_model [map (map (\<lambda>x. [x])) two_frame_normalised] = Inr [[Finite (1 / 4)]]"
proof -
  have h1: "read voice_wav = Inr ''RIFF''" by (simp add: voice_wav_def)
  have h3: "quarter_on_clip_model (add_axes two_frame_normalised) = Inr [[Finite (1 / 4)]]"
    by (simp add: quarter_on_clip_model_def add_axes_def)
  have h4: "index_0_0 [[Finite (1 / 4)]] = Inr (Finite (1 / 4))" by (simp add: index_0_0_def)
  have run: "predict_audio two_frame_librosa (Some quarter_on_clip_model) voice_wav =
     (Returned [(''prediction'', JStr ''HUMAN''), (''confidence'', JNum (Finite 75))],
      [Feature_extraction ''RIFF'', Forward_pass [map (map (\<lambda>x. [x])) two_frame_normalised]])"
    using predict_audio_success [where m = quarter_on_clip_model, OF h1 two_frame_spectrogram h3 h4]
    by (simp add: result_dict_quarter add_axes_def)
  from forward_pass_gets_1_128_128_1 [OF run] two_frame_spectrogram [of "''RIFF''"] h1
  have "has_shape4 [map (map (\<lambda>x. [x])) two_frame_normalised] (1, 128, 128, 1)" by auto
  with run h3 show ?thesis by (simp add: add_axes_def)
qed

text \<open>
  Claim C7. Two requests whose uploads hold the same bytes get the same response (label
  and confidence) and make the same calls, whatever their file names and content types.
  Each request has its own librosa and its own forward pass here, which need not be the
  same functions: what is required of them is that the calls the first request makes give
  the same when the second request repeats them, for librosa on the uploaded bytes and for
  the forward pass of the fixed model on the one batch it is given.
\<close>

theorem same_bytes_same_response:
  assumes "read file1 = Inr file_bytes" and "read file2 = Inr file_bytes"
    and "load L1 file_bytes = load L2 file_bytes"
    and "\<And>y sr. load L1 file_bytes = Inr (y, sr) \<Longrightarrow>
           melspectrogram L1 y sr 128 = melspectrogram L2 y sr 128"
    and "\<And>y sr S. load L1 file_bytes = Inr (y, sr) \<Longrightarrow> melspectrogram L1 y sr 128 = Inr S \<Longrightarrow>
           power_to_db L1 S = power_to_db L2 S"
    and "\<And>spectrogram. audio_to_spectrogram L1 file_bytes = Some spectrogram \<Longrightarrow>
           m1 (add_axes spectrogram) = m2 (add_axes spectrogram)"
  shows "app L1 (Some m1) (POST_predict file1) = app L2 (Some m2) (POST_predict file2)"
proof -
  have same: "audio_to_spectrogram L1 file_bytes = audio_to_spectrogram L2 file_bytes"
    using assms(3-5) by (rule extractor_repeatable)
  show ?thesis
  proof (cases "audio_to_spectrogram L1 file_bytes")
    case None
    with same assms(1,2) show ?thesis by (simp add: app_def predict_audio_def)
  next
    case (Some spectrogram)
    have "m1 (add_axes spectrogram) = m2 (add_axes spectrogram)" by (rule assms(6) [OF Some])
    with Some same assms(1,2) show ?thesis by (simp add: app_def predict_audio_def Let_def)
  qed
qed

text \<open>
  Two different uploads of the same four bytes, under two different librosas and two
  different forward passes that agree on this upload.
\<close>

theorem same_bytes_same_response_witness:
  "read voice_wav = Inr ''RIFF'' \<and> read copy_bin = Inr ''RIFF'' \<and> voice_wav \<noteq> copy_bin \<and>
   load two_frame_librosa ''RIFF'' = load riff_only_librosa ''RIFF'' \<and>
   load two_frame_librosa ''WAVE'' \<noteq> load riff_only_librosa ''WAVE'' \<and>
   quarter_model (add_axes two_frame_normalised) = quarter_on_clip_model (add_axes two_frame_normalised) \<and>
   quarter_model [] \<noteq> quarter_on_clip_model [] \<and>
   app two_frame_librosa (Some quarter_model) (POST_predict voice_wav) =
   app riff_only_librosa (Some quarter_on_clip_model) (POST_predict copy_bin)"
proof -
  have h1: "read voice_wav = Inr ''RIFF''" by (simp add: voice_wav_def)
  have h2: "read copy_bin = Inr ''RIFF''" by (simp add: copy_bin_def)
  have ne: "voice_wav \<noteq> copy_bin" by (simp add: voice_wav_def copy_bin_def)
  have h3: "load two_frame_librosa ''RIFF'' = load riff_only_librosa ''RIFF''"
    by (simp add: two_frame_librosa_def riff_only_librosa_def)
  have d3: "load two_frame_librosa ''WAVE'' \<noteq> load riff_only_librosa ''WAVE''"
    by (simp add: two_frame_librosa_def riff_only_librosa_def)
  have h4: "melspectrogram two_frame_librosa y sr 128 = melspectrogram riff_only_librosa y sr 128" for y sr
    by (simp add: two_frame_librosa_def riff_only_librosa_def)
  have h5: "power_to_db two_frame_librosa S = power_to_db riff_only_librosa S" for S
    by (simp add: two_frame_librosa_def riff_only_librosa_def)
  have h6: "quarter_model (add_axes spectrogram) = quarter_on_clip_model (add_axes spectrogram)"
    if "audio_to_spectrogram two_frame_librosa ''RIFF'' = Some spectrogram" for spectrogram
    using that by (simp add: two_frame_spectrogram quarter_model_def quarter_on_clip_model_def add_axes_def)
  have a6: "quarter_model (add_axes two_frame_normalised) = quarter_on_clip_model (add_axes two_frame_normalised)"
    by (rule h6) (rule two_frame_spectrogram)
  have d6: "quarter_model [] \<noteq> quarter_on_clip_model []"
    by (simp add: quarter_model_def quarter_on_clip_model_def)
  from same_bytes_same_response [where ?m1.0 = quarter_model and ?m2.0 = quarter_on_clip_model,
      OF h1 h2 h3 h4 h5 h6]
  show ?thesis using h1 h2 ne h3 d3 a6 d6 by simp
qed

text \<open>
  Claim C8. Every request to the root route returns the same message, whatever the model
  (loaded or not) and librosa are, and calls neither.
\<close>

theorem root_returns_the_static_message:
  "app L mdl GET_root =
     (Returned [(''message'',
        JStr ([CHR 0xF0, CHR 0x9F, CHR 0x8E, CHR 0xA7] @ '' Deepfake Audio Detector API is running!''))],
      [])"
  by (simp add: app_def root_route_def)

text \<open>
  Claim C9 promises status 400 for every upload whose bytes the feature extractor cannot
  process. The check of the model comes first (line 78): with no model loaded, such an
  upload is answered with status 500, and the extractor is not called.
\<close>

theorem unprocessable_upload_without_model_counterexample:
  "read voice_wav = Inr ''RIFF'' \<and>
   audio_to_spectrogram failing_librosa ''RIFF'' = None \<and>
   predict_audio failing_librosa (model (Inl ''No such file: Promodel.keras'')) voice_wav =
     (JSONResponse 500 [(''error'', JStr ''Model not loaded on server.'')], [])"
  by (simp add: voice_wav_def audio_to_spectrogram_def failing_librosa_def model_def predict_audio_def)

text \<open>
  Claim C9, as amended. With the model loaded and the upload read, every file whose bytes
  the feature extractor cannot process (it returns \<^verbatim>\<open>None\<close>) is answered with status 400
  and the body \<^verbatim>\<open>{"error": "Could not process audio file."}\<close>; the only call of the request
  is the one of the feature extractor, so the forward pass is never invoked.
\<close>

theorem unprocessable_upload_gives_400:
  assumes "read file = Inr file_bytes" and "audio_to_spectrogram L file_bytes = None"
  shows "predict_audio L (Some m) file =
     (JSONResponse 400 [(''error'', JStr ''Could not process audio file.'')],
      [Feature_extraction file_bytes])"
  using assms by (simp add: predict_audio_def)

text \<open>An upload that librosa cannot decode, under the model whose output is 0.25.\<close>

theorem unprocessable_upload_gives_400_witness:
  "read voice_wav = Inr ''RIFF'' \<and>
   audio_to_spectrogram failing_librosa ''RIFF'' = None \<and>
   predict_audio failing_librosa (Some quarter_model) voice_wav =
     (JSONResponse 400 [(''error'', JStr ''Could not process audio file.'')],
      [Feature_extraction ''RIFF''])"
proof -
  have h1: "read voice_wav = Inr ''RIFF''" by (simp add: voice_wav_def)
  have h2: "audio_to_spectrogram failing_librosa ''RIFF'' = None"
    by (simp add: audio_to_spectrogram_def failing_librosa_def)
  from unprocessable_upload_gives_400 [where m = quarter_model, OF h1 h2] h1 h2
  show ?thesis by simp
qed

text \<open>
  Claim C10 gives the confidence as \<^verbatim>\<open>round(max(p, 1 - p) * 100, 2)\<close>. Computed exactly,
  that is 82.02 at the \<^verbatim>\<open>float32\<close> output \<open>6879917 / 2\<^sup>2\<^sup>3\<close>; the response carries 82.01,
  since the product of line 102 is rounded to \<^verbatim>\<open>float32\<close> first and falls below 82.015.
\<close>

theorem exact_confidence_counterexample:
  "(0 :: real) \<le> 6879917 / 8388608 \<and> (6879917 / 8388608 :: real) \<le> 1 \<and>
   is_f32 (6879917 / 8388608) \<and>
   fst (predict_audio two_frame_librosa (Some model_at_82) voice_wav) =
     Returned [(''prediction'', JStr ''AI-GENERATED''), (''confidence'', JNum (Finite (8201 / 100)))] \<and>
   py_round (Finite (max (6879917 / 8388608) (1 - 6879917 / 8388608) * 100)) 2 = Finite (8202 / 100)"
proof -
  have h1: "read voice_wav = Inr ''RIFF''" by (simp add: voice_wav_def)
  have h3: "model_at_82 (add_axes two_frame_normalised) = Inr [[Finite (6879917 / 8388608)]]"
    by (simp add: model_at_82_def)
  have h4: "index_0_0 [[Finite (6879917 / 8388608)]] = Inr (Finite (6879917 / 8388608))"
    by (simp add: index_0_0_def)
  have f: "is_f32 (6879917 / 8388608)" unfolding is_f32_def by code_simp
  have e: "py_round (Finite (max (6879917 / 8388608) (1 - 6879917 / 8388608) * 100)) 2 = Finite (8202 / 100)"
    by code_simp
  show ?thesis
    using predict_audio_success [where m = model_at_82, OF h1 two_frame_spectrogram h3 h4] f e
    by (simp add: result_dict_at_82)
qed

text \<open>
  Claim C10, as amended. For every model output \<open>p\<close> with \<open>0 \<le> p \<le> 1\<close> the confidence of
  the response is \<^verbatim>\<open>round(c, 2)\<close>, where \<^verbatim>\<open>c\<close> is \<^verbatim>\<open>max(p, 1 - p) * 100\<close> computed in \<^verbatim>\<open>float32\<close>
  (the difference and the product each rounded), and it lies between 50 and 100 inclusive.
\<close>

theorem float32_confidence_between_50_and_100:
  assumes "read file = Inr file_bytes"
    and "audio_to_spectrogram L file_bytes = Some spectrogram"
    and "m (add_axes spectrogram) = Inr out"
    and "index_0_0 out = Inr (Finite p)"
    and "0 \<le> p" and "p \<le> 1"
  shows "\<exists>label c. fst (predict_audio L (Some m) file) =
            Returned [(''prediction'', JStr label), (''confidence'', JNum (Finite c))] \<and>
          Finite c = py_round (fl_mul (fl_max (Finite p) (fl_sub (Finite 1) (Finite p))) (Finite 100)) 2 \<and>
          50 \<le> c \<and> c \<le> 100"
proof -
  from float32_confidence [OF assms(5,6)] obtain c where
    c: "snd (interpret_result (Finite p)) =
          fl_mul (fl_max (Finite p) (fl_sub (Finite 1) (Finite p))) (Finite 100)"
       "py_round (snd (interpret_result (Finite p))) 2 = Finite c" "50 \<le> c" "c \<le> 100"
    by blast
  have "fst (predict_audio L (Some m) file) =
     Returned [(''prediction'', JStr (fst (interpret_result (Finite p)))), (''confidence'', JNum (Finite c))]"
    using predict_audio_success [where m = m, OF assms(1-4)] c(2)
    by (simp add: result_dict_def split: prod.splits)
  moreover have "Finite c = py_round (fl_mul (fl_max (Finite p) (fl_sub (Finite 1) (Finite p))) (Finite 100)) 2"
    using c(1,2) by simp
  ultimately show ?thesis using c(3,4) by blast
qed

text \<open>At the output \<open>6879917 / 2\<^sup>2\<^sup>3\<close>: the confidence 82.01.\<close>

theorem float32_confidence_between_50_and_100_witness:
  "read voice_wav = Inr ''RIFF'' \<and>
   audio_to_spectrogram two_frame_librosa ''RIFF'' = Some two_frame_normalised \<and>
   model_at_82 (add_axes two_frame_normalised) = Inr [[Finite (6879917 / 8388608)]] \<and>
   index_0_0 [[Finite (6879917 / 8388608)]] = Inr (Finite (6879917 / 8388608)) \<and>
   (0 :: real) \<le> 6879917 / 8388608 \<and> (6879917 / 8388608 :: real) \<le> 1 \<and>
   (\<exists>label c. fst (predict_audio two_frame_librosa (Some model_at_82) voice_wav) =
            Returned [(''prediction'', JStr label), (''confidence'', JNum (Finite c))] \<and>
          Finite c = py_round (fl_mul (fl_max (Finite (6879917 / 8388608))
                        (fl_sub (Finite 1) (Finite (6879917 / 8388608)))) (Finite 100)) 2 \<and>
          50 \<le> c \<and> c \<le> 100) \<and>
   py_round (fl_mul (fl_max (Finite (6879917 / 8388608))
       (fl_sub (Finite 1) (Finite (6879917 / 8388608)))) (Finite 100)) 2 = Finite (8201 / 100)"
proof -
  have h1: "read voice_wav = Inr ''RIFF''" by (simp add: voice_wav_def)
  have h2: "audio_to_spectrogram two_frame_librosa ''RIFF'' = Some two_frame_normalised"
    by (rule two_frame_spectrogram)
  have h3: "model_at_82 (add_axes two_frame_normalised) = Inr [[Finite (6879917 / 8388608)]]"
    by (simp add: model_at_82_def)
  have h4: "index_0_0 [[Finite (6879917 / 8388608)]] = Inr (Finite (6879917 / 8388608))"
    by (simp add: index_0_0_def)
  have h5: "(0 :: real) \<le> 6879917 / 8388608" and h6: "(6879917 / 8388608 :: real) \<le> 1" by simp_all
  have v: "py_round (fl_mul (fl_max (Finite (6879917 / 8388608))
       (fl_sub (Finite 1) (Finite (6879917 / 8388608)))) (Finite 100)) 2 = Finite (8201 / 100)"
    by code_simp
  from float32_confidence_between_50_and_100 [where m = model_at_82, OF h1 h2 h3 h4 h5 h6]
  show ?thesis using h1 h2 h3 h4 h5 h6 v by blast
qed

end
